theory Spec2Isabelle
  imports Main
begin

section \<open>Common Python notions\<close>

text \<open>
  Both handlers are Python functions whose only observable behaviour is the sequence of
  calls they make on a provider client and the lines they print. A handler is modelled as
  a function returning that sequence (the trace) together with the way the call ended.
  Exceptions are values: a dictionary lookup of a missing key is \<open>KeyError\<close>, an index
  into an empty list is \<open>IndexError\<close>, and whatever a provider call raises is handed to
  the handler by the client, which is a parameter of the model.
\<close>

datatype error =
    KeyError string
  | IndexError
  | ClientError string
  | WaiterError string

text \<open>
  How a call of a handler ends: it returns, it raises \<open>SystemExit\<close> (Python's \<open>exit()\<close>,
  with the exit code it was given; no code is exit status 0), or an exception leaves it
  uncaught.
\<close>

datatype outcome =
    Returned
  | SystemExit "int option"
  | Raised error

text \<open>\<open>d[k]\<close> on a dictionary, here an association list.\<close>

definition getitem :: "(string \<times> 'v) list \<Rightarrow> string \<Rightarrow> error + 'v" where
  "getitem d k = (case map_of d k of None \<Rightarrow> Inl (KeyError k) | Some v \<Rightarrow> Inr v)"

text \<open>\<open>os.environ[k]\<close>.\<close>

type_synonym environ = "string \<rightharpoonup> string"

definition environ_get :: "environ \<Rightarrow> string \<Rightarrow> error + string" where
  "environ_get env k = (case env k of None \<Rightarrow> Inl (KeyError k) | Some v \<Rightarrow> Inr v)"

text \<open>
  \<open>s.split(sep)\<close> for a separator of one character: every occurrence of the separator
  ends a segment, so the result is never empty and \<open>''''.split(':')\<close> is \<open>['''']\<close>.
  The separator used below is ASCII, so splitting the bytes of a UTF-8 string splits its
  code points at the same places.
\<close>

fun str_split :: "char \<Rightarrow> string \<Rightarrow> string list" where
  "str_split sep [] = [[]]"
| "str_split sep (c # cs) =
     (if c = sep then [] # str_split sep cs
      else (case str_split sep cs of
              [] \<Rightarrow> [[c]]
            | w # ws \<Rightarrow> (c # w) # ws))"

text \<open>\<open>xs[-1]\<close>: the last element, \<open>IndexError\<close> on the empty list.\<close>

definition index_last :: "'a list \<Rightarrow> error + 'a" where
  "index_last xs = (case xs of [] \<Rightarrow> Inl IndexError | _ # _ \<Rightarrow> Inr (last xs))"

text \<open>\<open>sep.join(xs)\<close>.\<close>

fun str_join :: "string \<Rightarrow> string list \<Rightarrow> string" where
  "str_join sep [] = []"
| "str_join sep [x] = x"
| "str_join sep (x # y # ys) = x @ sep @ str_join sep (y # ys)"


section \<open>Snapshot replicator (rds-cross-region-copy/lambda.py)\<close>

record tag =
  Key :: string
  Value :: string

text \<open>The keyword arguments of one \<open>copy_db_snapshot\<close> call.\<close>

record copy_request =
  SourceDBSnapshotIdentifier :: string
  TargetDBSnapshotIdentifier :: string
  Tags :: "tag list"
  SourceRegion :: string
  KmsKeyId :: string

text \<open>
  The RDS client. What \<open>copy_db_snapshot\<close> answers may depend on the requests the
  provider has already received in this invocation (a second copy to the same target is
  refused, say), so the client is a function of those and of the request: either the
  exception it raises or the response it returns.
\<close>

type_synonym 'r rds_client = "copy_request list \<Rightarrow> copy_request \<Rightarrow> error + 'r"

datatype 'r rds_effect =
    Copy_db_snapshot copy_request
  | Print_response 'r

text \<open>Lines 8 and 9: \<open>arn = snapshot_arn.split(':')\<close>, \<open>snapshot_name = arn[-1]\<close>.\<close>

definition snapshot_name :: "string \<Rightarrow> error + string" where
  "snapshot_name snapshot_arn = index_last (str_split CHR '':'' snapshot_arn)"

text \<open>
  Lines 8 to 21: the arguments of the call, evaluated in the order they are written. The
  source region is read from the environment twice, the key identifier once; a missing
  variable raises before the request is made.
\<close>

definition copy_db_snapshot_args :: "environ \<Rightarrow> string \<Rightarrow> error + copy_request" where
  "copy_db_snapshot_args env snapshot_arn =
     (case snapshot_name snapshot_arn of
        Inl e \<Rightarrow> Inl e
      | Inr name \<Rightarrow>
          (case environ_get env ''SOURCE_REGION'' of
             Inl e \<Rightarrow> Inl e
           | Inr tag_value \<Rightarrow>
               (case environ_get env ''SOURCE_REGION'' of
                  Inl e \<Rightarrow> Inl e
                | Inr source_region \<Rightarrow>
                    (case environ_get env ''DESTINATION_REGION_KMS_KEY_ID'' of
                       Inl e \<Rightarrow> Inl e
                     | Inr kms_key_id \<Rightarrow>
                         Inr \<lparr>SourceDBSnapshotIdentifier = snapshot_arn,
                              TargetDBSnapshotIdentifier = ''copy-'' @ name,
                              Tags = [\<lparr>Key = ''source_region'', Value = tag_value\<rparr>],
                              SourceRegion = source_region,
                              KmsKeyId = kms_key_id\<rparr>))))"

text \<open>
  Lines 7 to 23: the loop over \<open>event['resources']\<close>. \<open>sent\<close> is what the provider has
  received so far in this invocation, \<open>t\<close> the trace so far. An exception ends the loop
  and the handler.
\<close>

fun copy_loop ::
  "'r rds_client \<Rightarrow> environ \<Rightarrow> string list \<Rightarrow> copy_request list \<Rightarrow> 'r rds_effect list
   \<Rightarrow> 'r rds_effect list \<times> outcome" where
  "copy_loop client env [] sent t = (t, Returned)"
| "copy_loop client env (snapshot_arn # rest) sent t =
     (case copy_db_snapshot_args env snapshot_arn of
        Inl e \<Rightarrow> (t, Raised e)
      | Inr req \<Rightarrow>
          (case client sent req of
             Inl e \<Rightarrow> (t @ [Copy_db_snapshot req], Raised e)
           | Inr response \<Rightarrow>
               copy_loop client env rest (sent @ [req])
                 (t @ [Copy_db_snapshot req, Print_response response])))"

text \<open>
  The handler. \<open>boto3_client\<close> is \<open>boto3.client\<close>: given the service and the region it
  returns the client or raises. The context argument is not used.
\<close>

definition lambda_handler_rds ::
  "(string \<Rightarrow> string \<Rightarrow> error + 'r rds_client) \<Rightarrow> environ \<Rightarrow> (string \<times> string list) list \<Rightarrow> 'c
   \<Rightarrow> 'r rds_effect list \<times> outcome" where
  "lambda_handler_rds boto3_client env event context =
     (case environ_get env ''DESTINATION_REGION'' of
        Inl e \<Rightarrow> ([], Raised e)
      | Inr region \<Rightarrow>
          (case boto3_client ''rds'' region of
             Inl e \<Rightarrow> ([], Raised e)
           | Inr client \<Rightarrow>
               (case getitem event ''resources'' of
                  Inl e \<Rightarrow> ([], Raised e)
                | Inr resources \<Rightarrow> copy_loop client env resources [] [])))"

text \<open>The copy requests of a trace, in the order they were made.\<close>

fun copy_calls :: "'r rds_effect list \<Rightarrow> copy_request list" where
  "copy_calls [] = []"
| "copy_calls (Copy_db_snapshot req # t) = req # copy_calls t"
| "copy_calls (Print_response r # t) = copy_calls t"

text \<open>The responses a trace printed, in order.\<close>

fun printed_responses :: "'r rds_effect list \<Rightarrow> 'r list" where
  "printed_responses [] = []"
| "printed_responses (Copy_db_snapshot req # t) = printed_responses t"
| "printed_responses (Print_response r # t) = r # printed_responses t"

text \<open>
  The specification's words for the name derivation: the final colon-delimited segment
  of a resource name is what follows its last colon, the whole name when it has none.
\<close>

definition final_segment :: "string \<Rightarrow> string" where
  "final_segment s = rev (takeWhile (\<lambda>c. c \<noteq> CHR '':'') (rev s))"

text \<open>
  The specification's words for the request of one entry: source identifier (the full
  resource name), destination identifier \<open>copy-<base name>\<close>, the tag
  \<open>source_region\<close> with the configured source region, the configured source region, and
  the key identifier.
\<close>

definition expected_request :: "string \<Rightarrow> string \<Rightarrow> string \<Rightarrow> copy_request" where
  "expected_request source_region kms_key_id snapshot_arn =
     \<lparr>SourceDBSnapshotIdentifier = snapshot_arn,
      TargetDBSnapshotIdentifier = ''copy-'' @ final_segment snapshot_arn,
      Tags = [\<lparr>Key = ''source_region'', Value = source_region\<rparr>],
      SourceRegion = source_region,
      KmsKeyId = kms_key_id\<rparr>"


text \<open>Inputs used to exercise the replicator.\<close>

definition example_environ :: environ where
  "example_environ =
     [''SOURCE_REGION'' \<mapsto> ''us-east-1'',
      ''DESTINATION_REGION'' \<mapsto> ''eu-west-1'',
      ''DESTINATION_REGION_KMS_KEY_ID'' \<mapsto> ''alias/replica'']"

definition nightly_arn :: string where
  "nightly_arn = ''arn:aws:rds:us-east-1:123456789012:snapshot:nightly-2024''"

definition nightly_request :: copy_request where
  "nightly_request =
     \<lparr>SourceDBSnapshotIdentifier = nightly_arn,
      TargetDBSnapshotIdentifier = ''copy-nightly-2024'',
      Tags = [\<lparr>Key = ''source_region'', Value = ''us-east-1''\<rparr>],
      SourceRegion = ''us-east-1'',
      KmsKeyId = ''alias/replica''\<rparr>"

definition second_arn :: string where
  "second_arn = ''arn:aws:rds:us-east-1:123456789012:snapshot:weekly''"

definition second_request :: copy_request where
  "second_request =
     \<lparr>SourceDBSnapshotIdentifier = second_arn,
      TargetDBSnapshotIdentifier = ''copy-weekly'',
      Tags = [\<lparr>Key = ''source_region'', Value = ''us-east-1''\<rparr>],
      SourceRegion = ''us-east-1'',
      KmsKeyId = ''alias/replica''\<rparr>"

definition bare_request :: copy_request where
  "bare_request =
     \<lparr>SourceDBSnapshotIdentifier = ''nightly-2024'',
      TargetDBSnapshotIdentifier = ''copy-nightly-2024'',
      Tags = [\<lparr>Key = ''source_region'', Value = ''us-east-1''\<rparr>],
      SourceRegion = ''us-east-1'',
      KmsKeyId = ''alias/replica''\<rparr>"


definition two_snapshots_event :: "(string \<times> string list) list" where
  "two_snapshots_event = [(''resources'', [nightly_arn, second_arn])]"

definition accepting_rds :: "string rds_client" where
  "accepting_rds sent req = Inr (TargetDBSnapshotIdentifier req)"

definition refusing_rds :: "string rds_client" where
  "refusing_rds sent req = Inl (ClientError ''AccessDenied'')"

definition accept_one_rds :: "string rds_client" where
  "accept_one_rds sent req =
     (if sent = [] then Inr (TargetDBSnapshotIdentifier req)
      else Inl (ClientError ''SnapshotQuotaExceeded''))"

definition boto3_accepting :: "string \<Rightarrow> string \<Rightarrow> error + string rds_client" where
  "boto3_accepting service region = Inr accepting_rds"

definition boto3_refusing :: "string \<Rightarrow> string \<Rightarrow> error + string rds_client" where
  "boto3_refusing service region = Inr refusing_rds"

definition boto3_accept_one :: "string \<Rightarrow> string \<Rightarrow> error + string rds_client" where
  "boto3_accept_one service region = Inr accept_one_rds"


section \<open>Instance scheduler (lambda-start-stop-ec2/lambda.py)\<close>

text \<open>The parts of a \<open>describe_instances\<close> response the handler reads.\<close>

record ec2_instance =
  InstanceId :: string

record reservation =
  Instances :: "ec2_instance list"

record describe_response =
  Reservations :: "reservation list"

record ec2_filter =
  Name :: string
  Values :: "string list"

text \<open>
  The EC2 client: for each call the handler makes, the exception it raises or the
  response it returns. \<open>client_waiter_wait name ids\<close> is
  \<open>client.get_waiter(name).wait(InstanceIds=ids)\<close>. The handler makes each call at most
  once, so a function of the arguments covers every behaviour of the provider.
\<close>

record ec2_client =
  client_describe_instances :: "ec2_filter list \<Rightarrow> error + describe_response"
  client_start_instances :: "string list \<Rightarrow> error + unit"
  client_stop_instances :: "string list \<Rightarrow> error + unit"
  client_waiter_wait :: "string \<Rightarrow> string list \<Rightarrow> error + unit"

text \<open>What the handler does that can be seen from outside, in the order it does it.\<close>

datatype 'c ec2_effect =
    Print_event "(string \<times> string) list"
  | Print_context 'c
  | Print string
  | Describe_instances "ec2_filter list"
  | Start_instances "string list"
  | Stop_instances "string list"
  | Waiter_wait string "string list"

definition TAG_KEY :: string where
  "TAG_KEY = ''Scheduled''"

definition TAG_VALUE :: string where
  "TAG_VALUE = ''OfficeHours''"

definition start_instances ::
  "ec2_client \<Rightarrow> string list \<Rightarrow> 'c ec2_effect list \<Rightarrow> 'c ec2_effect list \<times> outcome" where
  "start_instances client instance_ids t =
     (let t1 = t @ [Print ''Starting instances...'', Start_instances instance_ids] in
      case client_start_instances client instance_ids of
        Inl e \<Rightarrow> (t1, Raised e)
      | Inr _ \<Rightarrow>
          (let t2 = t1 @ [Print ''Waiting for instances to start...'',
                          Waiter_wait ''instance_running'' instance_ids] in
           case client_waiter_wait client ''instance_running'' instance_ids of
             Inl e \<Rightarrow> (t2, Raised e)
           | Inr _ \<Rightarrow> (t2 @ [Print ''Instances started successfully''], Returned)))"

definition stop_instances ::
  "ec2_client \<Rightarrow> string list \<Rightarrow> 'c ec2_effect list \<Rightarrow> 'c ec2_effect list \<times> outcome" where
  "stop_instances client instance_ids t =
     (let t1 = t @ [Print ''Stopping instances...'', Stop_instances instance_ids] in
      case client_stop_instances client instance_ids of
        Inl e \<Rightarrow> (t1, Raised e)
      | Inr _ \<Rightarrow>
          (let t2 = t1 @ [Print ''Waiting for instances to stop...'',
                          Waiter_wait ''instance_stopped'' instance_ids] in
           case client_waiter_wait client ''instance_stopped'' instance_ids of
             Inl e \<Rightarrow> (t2, Raised e)
           | Inr _ \<Rightarrow> (t2 @ [Print ''Instances stopped successfully''], Returned)))"

text \<open>Lines 36 to 39: the two nested loops that append every \<open>InstanceId\<close>.\<close>

fun append_instance_ids :: "ec2_instance list \<Rightarrow> string list \<Rightarrow> string list" where
  "append_instance_ids [] instance_ids = instance_ids"
| "append_instance_ids (instance # rest) instance_ids =
     append_instance_ids rest (instance_ids @ [InstanceId instance])"

fun collect_instance_ids :: "reservation list \<Rightarrow> string list \<Rightarrow> string list" where
  "collect_instance_ids [] instance_ids = instance_ids"
| "collect_instance_ids (reservation # rest) instance_ids =
     collect_instance_ids rest (append_instance_ids (Instances reservation) instance_ids)"

definition custom_filter :: "ec2_filter list" where
  "custom_filter = [\<lparr>Name = ''tag:'' @ TAG_KEY, Values = [TAG_VALUE]\<rparr>]"

text \<open>
  The handler. \<open>event['Action']\<close> is looked up anew at each comparison and in the last
  message, as in the source; the fields of the event are strings.
\<close>

definition lambda_handler_ec2 ::
  "ec2_client \<Rightarrow> (string \<times> string) list \<Rightarrow> 'c \<Rightarrow> 'c ec2_effect list \<times> outcome" where
  "lambda_handler_ec2 client event context =
     (let t1 = [Print_event event, Print_context context, Describe_instances custom_filter] in
      case client_describe_instances client custom_filter of
        Inl e \<Rightarrow> (t1, Raised e)
      | Inr response \<Rightarrow>
          (let instance_ids = collect_instance_ids (Reservations response) [] in
           if instance_ids = [] then
             (t1 @ [Print (''Found no instance ids with tag '' @ TAG_KEY @ ''='' @ TAG_VALUE)],
              SystemExit None)
           else
             (let t2 = t1 @ [Print (''Found instance ids '' @ str_join '','' instance_ids
                                    @ '' with tag '' @ TAG_KEY @ ''='' @ TAG_VALUE)] in
              case getitem event ''Action'' of
                Inl e \<Rightarrow> (t2, Raised e)
              | Inr action1 \<Rightarrow>
                  if action1 = ''Start'' then start_instances client instance_ids t2
                  else
                    (case getitem event ''Action'' of
                       Inl e \<Rightarrow> (t2, Raised e)
                     | Inr action2 \<Rightarrow>
                         if action2 = ''Stop'' then stop_instances client instance_ids t2
                         else
                           (case getitem event ''Action'' of
                              Inl e \<Rightarrow> (t2, Raised e)
                            | Inr action3 \<Rightarrow>
                                (t2 @ [Print (''Unknown action '' @ action3
                                              @ '' provided by event.'')],
                                 Returned))))))"

text \<open>
  The state-changing and waiting calls of a trace (start, stop, wait), and all the
  provider calls of a trace (those and the lookup), in order.
\<close>

fun is_power_call :: "'c ec2_effect \<Rightarrow> bool" where
  "is_power_call (Start_instances ids) = True"
| "is_power_call (Stop_instances ids) = True"
| "is_power_call (Waiter_wait name ids) = True"
| "is_power_call _ = False"

definition power_calls :: "'c ec2_effect list \<Rightarrow> 'c ec2_effect list" where
  "power_calls t = filter is_power_call t"

fun is_api_call :: "'c ec2_effect \<Rightarrow> bool" where
  "is_api_call (Print_event ev) = False"
| "is_api_call (Print_context c) = False"
| "is_api_call (Print line) = False"
| "is_api_call _ = True"

definition api_calls :: "'c ec2_effect list \<Rightarrow> 'c ec2_effect list" where
  "api_calls t = filter is_api_call t"

text \<open>The lookups of a trace, in order.\<close>

fun describe_calls :: "'c ec2_effect list \<Rightarrow> ec2_filter list list" where
  "describe_calls [] = []"
| "describe_calls (Describe_instances filters # t) = filters # describe_calls t"
| "describe_calls (_ # t) = describe_calls t"

text \<open>
  The trace of the handler at the point where it looks at the action: the two objects
  printed, the lookup, and the message listing the identifiers found.
\<close>

definition found_trace :: "(string \<times> string) list \<Rightarrow> 'c \<Rightarrow> string list \<Rightarrow> 'c ec2_effect list" where
  "found_trace event ctx ids =
     [Print_event event, Print_context ctx, Describe_instances custom_filter,
      Print (''Found instance ids '' @ str_join '','' ids
             @ '' with tag '' @ TAG_KEY @ ''='' @ TAG_VALUE)]"

text \<open>The identifiers a lookup returns, as the specification puts it: all of them, flattened.\<close>

definition returned_ids :: "describe_response \<Rightarrow> string list" where
  "returned_ids response = concat (map (\<lambda>r. map InstanceId (Instances r)) (Reservations response))"

text \<open>Inputs used to exercise the scheduler.\<close>

definition start_event :: "(string \<times> string) list" where
  "start_event = [(''Action'', ''Start'')]"

definition stop_event :: "(string \<times> string) list" where
  "stop_event = [(''Action'', ''Stop'')]"

definition restart_event :: "(string \<times> string) list" where
  "restart_event = [(''Action'', ''Restart'')]"

definition no_action_event :: "(string \<times> string) list" where
  "no_action_event = [(''time'', ''2024-01-01T08:00:00Z'')]"

definition two_instances :: describe_response where
  "two_instances =
     \<lparr>Reservations = [\<lparr>Instances = [\<lparr>InstanceId = ''i-111''\<rparr>, \<lparr>InstanceId = ''i-222''\<rparr>]\<rparr>]\<rparr>"

definition no_instances :: describe_response where
  "no_instances = \<lparr>Reservations = []\<rparr>"

definition working_ec2 :: ec2_client where
  "working_ec2 =
     \<lparr>client_describe_instances = (\<lambda>filters. Inr two_instances),
      client_start_instances = (\<lambda>ids. Inr ()),
      client_stop_instances = (\<lambda>ids. Inr ()),
      client_waiter_wait = (\<lambda>name ids. Inr ())\<rparr>"

definition start_denied_ec2 :: ec2_client where
  "start_denied_ec2 =
     working_ec2\<lparr>client_start_instances := (\<lambda>ids. Inl (ClientError ''UnauthorizedOperation''))\<rparr>"

definition stop_denied_ec2 :: ec2_client where
  "stop_denied_ec2 =
     working_ec2\<lparr>client_stop_instances := (\<lambda>ids. Inl (ClientError ''UnauthorizedOperation''))\<rparr>"

definition idle_ec2 :: ec2_client where
  "idle_ec2 = working_ec2\<lparr>client_describe_instances := (\<lambda>filters. Inr no_instances)\<rparr>"

definition unreachable_ec2 :: ec2_client where
  "unreachable_ec2 =
     working_ec2\<lparr>client_describe_instances := (\<lambda>filters. Inl (ClientError ''RequestLimitExceeded''))\<rparr>"


section \<open>Name derivation\<close>

lemma str_split_not_Nil: "str_split sep s \<noteq> []"
  by (induction s) (auto split: list.splits)

lemma str_split_no_sep: "sep \<notin> set s \<Longrightarrow> str_split sep s = [s]"
  by (induction s) auto

lemma str_split_sep_tl: "sep \<in> set s \<Longrightarrow> tl (str_split sep s) \<noteq> []"
  by (induction s) (auto split: list.splits simp: str_split_not_Nil)

lemma last_str_split_Cons:
  "last (str_split sep (c # cs)) =
     (if sep \<in> set cs then last (str_split sep cs) else if c = sep then cs else c # cs)"
proof (cases "sep \<in> set cs")
  case False
  then show ?thesis by (simp add: str_split_no_sep)
next
  case True
  from str_split_sep_tl [OF True] obtain w ws
    where "str_split sep cs = w # ws" and "ws \<noteq> []"
    by (cases "str_split sep cs") auto
  with True show ?thesis by simp
qed

lemma final_segment_Cons:
  "final_segment (c # cs) =
     (if CHR '':'' \<in> set cs then final_segment cs else if c = CHR '':'' then cs else c # cs)"
  by (auto simp: final_segment_def takeWhile_append)

lemma last_str_split: "last (str_split CHR '':'' s) = final_segment s"
proof (induction s)
  case Nil
  show ?case by (simp add: final_segment_def)
next
  case (Cons c cs)
  then show ?case by (simp only: last_str_split_Cons final_segment_Cons)
qed

lemma index_last_nonempty: "xs \<noteq> [] \<Longrightarrow> index_last xs = Inr (last xs)"
  by (cases xs) (simp_all add: index_last_def)

lemma snapshot_name_eq: "snapshot_name s = Inr (final_segment s)"
  by (simp add: snapshot_name_def index_last_nonempty str_split_not_Nil last_str_split)

lemma final_segment_after_colon:
  "CHR '':'' \<notin> set name \<Longrightarrow> final_segment (pre @ CHR '':'' # name) = name"
  by (simp add: final_segment_def takeWhile_append)

lemma final_segment_no_colon: "CHR '':'' \<notin> set s \<Longrightarrow> final_segment s = s"
proof -
  assume "CHR '':'' \<notin> set s"
  then have "takeWhile (\<lambda>c. c \<noteq> CHR '':'') (rev s) = rev s"
    by auto
  then show ?thesis by (simp only: final_segment_def rev_rev_ident)
qed

lemma copy_db_snapshot_args_eq:
  "env ''SOURCE_REGION'' = Some sr \<Longrightarrow> env ''DESTINATION_REGION_KMS_KEY_ID'' = Some k \<Longrightarrow>
   copy_db_snapshot_args env s = Inr (expected_request sr k s)"
  by (simp add: copy_db_snapshot_args_def snapshot_name_eq environ_get_def expected_request_def)


section \<open>The replicator's loop\<close>


lemma copy_calls_append: "copy_calls (t @ u) = copy_calls t @ copy_calls u"
  by (induction t rule: copy_calls.induct) simp_all


lemma copy_loop_step:
  assumes "env ''SOURCE_REGION'' = Some sr" and "env ''DESTINATION_REGION_KMS_KEY_ID'' = Some k"
  shows "copy_loop client env (a # rest) sent t =
     (case client sent (expected_request sr k a) of
        Inl e \<Rightarrow> (t @ [Copy_db_snapshot (expected_request sr k a)], Raised e)
      | Inr response \<Rightarrow>
          copy_loop client env rest (sent @ [expected_request sr k a])
            (t @ [Copy_db_snapshot (expected_request sr k a), Print_response response]))"
  by (simp add: copy_db_snapshot_args_eq [OF assms])

lemma copy_loop_accepted_prefix:
  assumes env: "env ''SOURCE_REGION'' = Some sr" "env ''DESTINATION_REGION_KMS_KEY_ID'' = Some k"
    and ok: "\<forall>i<length pre. \<exists>r.
               client (sent @ map (expected_request sr k) (take i pre))
                      (expected_request sr k (pre ! i)) = Inr r"
  shows "\<exists>u. copy_loop client env (pre @ rest) sent t =
               copy_loop client env rest (sent @ map (expected_request sr k) pre) (t @ u)
            \<and> copy_calls u = map (expected_request sr k) pre
            \<and> length (printed_responses u) = length pre"
  using ok
proof (induction pre arbitrary: sent t)
  case Nil
  have "copy_loop client env ([] @ rest) sent t =
          copy_loop client env rest (sent @ map (expected_request sr k) []) (t @ [])
        \<and> copy_calls ([] :: 'a rds_effect list) = map (expected_request sr k) []
        \<and> length (printed_responses ([] :: 'a rds_effect list)) = length ([] :: string list)"
    by simp
  then show ?case by blast
next
  case (Cons a pre)
  from Cons.prems have "\<exists>r. client (sent @ map (expected_request sr k) (take 0 (a # pre)))
      (expected_request sr k ((a # pre) ! 0)) = Inr r"
    by blast
  then obtain r where r: "client sent (expected_request sr k a) = Inr r"
    by auto
  have tail: "\<forall>i<length pre. \<exists>r.
      client ((sent @ [expected_request sr k a]) @ map (expected_request sr k) (take i pre))
             (expected_request sr k (pre ! i)) = Inr r"
  proof (intro allI impI)
    fix i assume "i < length pre"
    then have "Suc i < length (a # pre)" by simp
    with Cons.prems have "\<exists>r. client (sent @ map (expected_request sr k) (take (Suc i) (a # pre)))
      (expected_request sr k ((a # pre) ! Suc i)) = Inr r"
      by blast
    then show "\<exists>r. client ((sent @ [expected_request sr k a]) @ map (expected_request sr k) (take i pre))
             (expected_request sr k (pre ! i)) = Inr r"
      by simp
  qed
  from Cons.IH [OF tail, of "t @ [Copy_db_snapshot (expected_request sr k a), Print_response r]"]
  obtain u where u: "copy_loop client env (pre @ rest) (sent @ [expected_request sr k a])
        (t @ [Copy_db_snapshot (expected_request sr k a), Print_response r]) =
      copy_loop client env rest ((sent @ [expected_request sr k a]) @ map (expected_request sr k) pre)
        ((t @ [Copy_db_snapshot (expected_request sr k a), Print_response r]) @ u)"
    and calls: "copy_calls u = map (expected_request sr k) pre"
    and prints: "length (printed_responses u) = length pre"
    by blast
  let ?u = "[Copy_db_snapshot (expected_request sr k a), Print_response r] @ u"
  have "copy_loop client env ((a # pre) @ rest) sent t =
          copy_loop client env rest (sent @ map (expected_request sr k) (a # pre)) (t @ ?u)"
    using u r by (simp add: copy_loop_step [OF env] del: copy_loop.simps)
  moreover have "copy_calls ?u = map (expected_request sr k) (a # pre)"
    using calls by simp
  moreover have "length (printed_responses ?u) = length (a # pre)"
    using prints by simp
  ultimately show ?case by blast
qed

lemma copy_loop_calls_prefix:
  assumes env: "env ''SOURCE_REGION'' = Some sr" "env ''DESTINATION_REGION_KMS_KEY_ID'' = Some k"
  shows "\<exists>n\<le>length arns. copy_calls (fst (copy_loop client env arns sent t)) =
           copy_calls t @ map (expected_request sr k) (take n arns)"
proof (induction arns arbitrary: sent t)
  case Nil
  show ?case by simp
next
  case (Cons a arns)
  show ?case
  proof (cases "client sent (expected_request sr k a)")
    case (Inl e)
    then have "copy_calls (fst (copy_loop client env (a # arns) sent t)) =
        copy_calls t @ map (expected_request sr k) (take 1 (a # arns))"
      by (simp add: copy_loop_step [OF env] copy_calls_append del: copy_loop.simps)
    then show ?thesis by (intro exI [of _ 1]) simp
  next
    case (Inr r)
    from Cons.IH [of "sent @ [expected_request sr k a]"
        "t @ [Copy_db_snapshot (expected_request sr k a), Print_response r]"]
    obtain n where n: "n \<le> length arns"
      and eq: "copy_calls (fst (copy_loop client env arns (sent @ [expected_request sr k a])
           (t @ [Copy_db_snapshot (expected_request sr k a), Print_response r]))) =
         copy_calls (t @ [Copy_db_snapshot (expected_request sr k a), Print_response r])
           @ map (expected_request sr k) (take n arns)"
      by blast
    have "copy_calls (fst (copy_loop client env (a # arns) sent t)) =
        copy_calls t @ map (expected_request sr k) (take (Suc n) (a # arns))"
      using Inr eq by (simp add: copy_loop_step [OF env] copy_calls_append del: copy_loop.simps)
    with n show ?thesis by (intro exI [of _ "Suc n"]) simp
  qed
qed

lemma copy_loop_calls_are_args:
  assumes "c \<in> set (copy_calls (fst (copy_loop client env arns sent t)))"
  shows "c \<in> set (copy_calls t) \<or> (\<exists>a\<in>set arns. copy_db_snapshot_args env a = Inr c)"
  using assms
proof (induction arns arbitrary: sent t)
  case Nil
  then show ?case by simp
next
  case (Cons a arns)
  show ?case
  proof (cases "copy_db_snapshot_args env a")
    case (Inl e)
    with Cons.prems show ?thesis by simp
  next
    case (Inr req)
    show ?thesis
    proof (cases "client sent req")
      case (Inl e)
      with Cons.prems Inr show ?thesis
        by (auto simp: copy_calls_append)
    next
      case r: (Inr r)
      with Cons.prems Inr
      have "c \<in> set (copy_calls (fst (copy_loop client env arns (sent @ [req])
                (t @ [Copy_db_snapshot req, Print_response r]))))"
        by simp
      from Cons.IH [OF this] Inr show ?thesis
        by (auto simp: copy_calls_append)
    qed
  qed
qed

lemma copy_db_snapshot_args_Inr:
  assumes "copy_db_snapshot_args env a = Inr c"
  shows "env ''SOURCE_REGION'' = Some (SourceRegion c)"
    and "env ''DESTINATION_REGION_KMS_KEY_ID'' = Some (KmsKeyId c)"
    and "c = expected_request (SourceRegion c) (KmsKeyId c) a"
  using assms
  by (auto simp: copy_db_snapshot_args_def environ_get_def snapshot_name_eq expected_request_def
           split: option.splits)

lemma lambda_handler_rds_calls_are_args:
  assumes "c \<in> set (copy_calls (fst (lambda_handler_rds boto3_client env event context)))"
  shows "\<exists>resources. getitem event ''resources'' = Inr resources
           \<and> (\<exists>a\<in>set resources. copy_db_snapshot_args env a = Inr c)"
  using assms copy_loop_calls_are_args [of c _ env _ "[]" "[]"]
  by (auto simp: lambda_handler_rds_def split: sum.splits)

lemma lambda_handler_rds_configured:
  assumes "env ''DESTINATION_REGION'' = Some dr"
    and "boto3_client ''rds'' dr = Inr client"
    and "getitem event ''resources'' = Inr resources"
  shows "lambda_handler_rds boto3_client env event context = copy_loop client env resources [] []"
  using assms by (simp add: lambda_handler_rds_def environ_get_def)

lemma copy_loop_reaches:
  assumes env: "env ''SOURCE_REGION'' = Some sr" "env ''DESTINATION_REGION_KMS_KEY_ID'' = Some k"
    and ok: "\<forall>i<length pre. \<exists>r.
               client (sent @ map (expected_request sr k) (take i pre))
                      (expected_request sr k (pre ! i)) = Inr r"
  shows "\<exists>more. copy_calls (fst (copy_loop client env (pre @ x # post) sent t)) =
           copy_calls t @ map (expected_request sr k) pre @ expected_request sr k x # more"
proof -
  from copy_loop_accepted_prefix [OF env ok, of "x # post" t]
  obtain u where u: "copy_loop client env (pre @ x # post) sent t =
        copy_loop client env (x # post) (sent @ map (expected_request sr k) pre) (t @ u)"
    and calls: "copy_calls u = map (expected_request sr k) pre"
    by blast
  let ?sent = "sent @ map (expected_request sr k) pre"
  show ?thesis
  proof (cases "client ?sent (expected_request sr k x)")
    case (Inl e)
    with u calls have "copy_calls (fst (copy_loop client env (pre @ x # post) sent t)) =
        copy_calls t @ map (expected_request sr k) pre @ expected_request sr k x # []"
      by (simp add: copy_loop_step [OF env] copy_calls_append del: copy_loop.simps)
    then show ?thesis by blast
  next
    case (Inr r)
    from copy_loop_calls_prefix [OF env, of post client "?sent @ [expected_request sr k x]"
        "(t @ u) @ [Copy_db_snapshot (expected_request sr k x), Print_response r]"]
    obtain n where "copy_calls (fst (copy_loop client env post (?sent @ [expected_request sr k x])
          ((t @ u) @ [Copy_db_snapshot (expected_request sr k x), Print_response r]))) =
        copy_calls ((t @ u) @ [Copy_db_snapshot (expected_request sr k x), Print_response r])
          @ map (expected_request sr k) (take n post)"
      by blast
    with u calls Inr
    have "copy_calls (fst (copy_loop client env (pre @ x # post) sent t)) =
        copy_calls t @ map (expected_request sr k) pre
          @ expected_request sr k x # map (expected_request sr k) (take n post)"
      by (simp add: copy_loop_step [OF env] copy_calls_append del: copy_loop.simps)
    then show ?thesis by blast
  qed
qed


section \<open>Properties of the replicator\<close>


lemma nightly_args: "copy_db_snapshot_args example_environ nightly_arn = Inr nightly_request"
  by (simp add: copy_db_snapshot_args_def snapshot_name_def index_last_def environ_get_def
        example_environ_def nightly_arn_def nightly_request_def)

lemma nightly_run:
  "lambda_handler_rds boto3_accepting example_environ [(''resources'', [nightly_arn])] () =
     ([Copy_db_snapshot nightly_request, Print_response ''copy-nightly-2024''], Returned)"
proof -
  have "lambda_handler_rds boto3_accepting example_environ [(''resources'', [nightly_arn])] () =
      copy_loop accepting_rds example_environ [nightly_arn] [] []"
    by (rule lambda_handler_rds_configured [where dr = "''eu-west-1''"])
       (simp_all add: example_environ_def boto3_accepting_def getitem_def)
  then show ?thesis
    by (simp add: nightly_args accepting_rds_def) (simp add: nightly_request_def)
qed

text \<open>
  Claim C4. For every snapshot resource name the name derivation succeeds and gives the
  final colon-delimited segment, so the destination identifier of the request built for
  it is \<open>copy-\<close> followed by that segment; for a name of the form \<open>...:name\<close>, with
  \<open>name\<close> the part after the last colon, it is \<open>copy-name\<close>; and every copy request the
  handler makes has as destination identifier \<open>copy-\<close> followed by the final segment of
  its source identifier.
\<close>

theorem destination_identifier_is_copy_final_segment:
  "snapshot_name snapshot_arn = Inr (final_segment snapshot_arn)
   \<and> (copy_db_snapshot_args env snapshot_arn = Inr req \<longrightarrow>
        TargetDBSnapshotIdentifier req = ''copy-'' @ final_segment snapshot_arn)
   \<and> (CHR '':'' \<notin> set name \<longrightarrow> copy_db_snapshot_args env (pre @ '':'' @ name) = Inr req' \<longrightarrow>
        TargetDBSnapshotIdentifier req' = ''copy-'' @ name)
   \<and> (c \<in> set (copy_calls (fst (lambda_handler_rds boto3_client env event ctx))) \<longrightarrow>
        TargetDBSnapshotIdentifier c = ''copy-'' @ final_segment (SourceDBSnapshotIdentifier c))"
proof (intro conjI impI)
  show "snapshot_name snapshot_arn = Inr (final_segment snapshot_arn)"
    by (rule snapshot_name_eq)
next
  assume "copy_db_snapshot_args env snapshot_arn = Inr req"
  from copy_db_snapshot_args_Inr(3) [OF this]
  have "TargetDBSnapshotIdentifier req =
      TargetDBSnapshotIdentifier (expected_request (SourceRegion req) (KmsKeyId req) snapshot_arn)"
    by simp
  then show "TargetDBSnapshotIdentifier req = ''copy-'' @ final_segment snapshot_arn"
    by (simp add: expected_request_def)
next
  assume name: "CHR '':'' \<notin> set name"
    and "copy_db_snapshot_args env (pre @ '':'' @ name) = Inr req'"
  from copy_db_snapshot_args_Inr(3) [OF this(2)]
  have "TargetDBSnapshotIdentifier req' =
      TargetDBSnapshotIdentifier
        (expected_request (SourceRegion req') (KmsKeyId req') (pre @ '':'' @ name))"
    by simp
  then show "TargetDBSnapshotIdentifier req' = ''copy-'' @ name"
    using final_segment_after_colon [OF name, of pre] by (simp add: expected_request_def)
next
  assume "c \<in> set (copy_calls (fst (lambda_handler_rds boto3_client env event ctx)))"
  from lambda_handler_rds_calls_are_args [OF this]
  obtain a where "copy_db_snapshot_args env a = Inr c"
    by blast
  from copy_db_snapshot_args_Inr(3) [OF this]
  have "TargetDBSnapshotIdentifier c =
          TargetDBSnapshotIdentifier (expected_request (SourceRegion c) (KmsKeyId c) a)"
    and "SourceDBSnapshotIdentifier c =
          SourceDBSnapshotIdentifier (expected_request (SourceRegion c) (KmsKeyId c) a)"
    by simp_all
  then show "TargetDBSnapshotIdentifier c = ''copy-'' @ final_segment (SourceDBSnapshotIdentifier c)"
    by (simp add: expected_request_def)
qed

theorem destination_identifier_is_copy_final_segment_witness:
  "copy_db_snapshot_args example_environ nightly_arn = Inr nightly_request
   \<and> CHR '':'' \<notin> set ''nightly-2024''
   \<and> copy_db_snapshot_args example_environ
        (''arn:aws:rds:us-east-1:123456789012:snapshot'' @ '':'' @ ''nightly-2024'') =
       Inr nightly_request
   \<and> nightly_request \<in> set (copy_calls (fst (lambda_handler_rds boto3_accepting example_environ
         [(''resources'', [nightly_arn])] ())))
   \<and> snapshot_name nightly_arn = Inr (final_segment nightly_arn)
   \<and> TargetDBSnapshotIdentifier nightly_request = ''copy-'' @ final_segment nightly_arn
   \<and> TargetDBSnapshotIdentifier nightly_request = ''copy-'' @ ''nightly-2024''
   \<and> TargetDBSnapshotIdentifier nightly_request =
       ''copy-'' @ final_segment (SourceDBSnapshotIdentifier nightly_request)"
proof -
  have h1: "copy_db_snapshot_args example_environ nightly_arn = Inr nightly_request"
    by (rule nightly_args)
  have h2: "CHR '':'' \<notin> set ''nightly-2024''"
    by simp
  have h3: "copy_db_snapshot_args example_environ
        (''arn:aws:rds:us-east-1:123456789012:snapshot'' @ '':'' @ ''nightly-2024'') =
       Inr nightly_request"
    using nightly_args by (simp add: nightly_arn_def)
  have h4: "nightly_request \<in> set (copy_calls (fst (lambda_handler_rds boto3_accepting
        example_environ [(''resources'', [nightly_arn])] ())))"
    by (simp add: nightly_run)
  from h1 h2 h3 h4
    destination_identifier_is_copy_final_segment
      [where snapshot_arn = nightly_arn and env = example_environ and req = nightly_request
         and name = "''nightly-2024''" and pre = "''arn:aws:rds:us-east-1:123456789012:snapshot''"
         and req' = nightly_request and c = nightly_request and boto3_client = boto3_accepting
         and event = "[(''resources'', [nightly_arn])]" and ctx = "()"]
  show ?thesis by blast
qed

lemma example_environ_simps:
  "example_environ ''SOURCE_REGION'' = Some ''us-east-1''"
  "example_environ ''DESTINATION_REGION'' = Some ''eu-west-1''"
  "example_environ ''DESTINATION_REGION_KMS_KEY_ID'' = Some ''alias/replica''"
  by (simp_all add: example_environ_def)

lemma nightly_expected: "expected_request ''us-east-1'' ''alias/replica'' nightly_arn = nightly_request"
  using nightly_args copy_db_snapshot_args_eq [OF example_environ_simps(1,3), of nightly_arn]
  by simp

lemma second_expected: "expected_request ''us-east-1'' ''alias/replica'' second_arn = second_request"
  by (simp add: expected_request_def final_segment_def second_arn_def second_request_def)

lemma bare_expected: "expected_request ''us-east-1'' ''alias/replica'' ''nightly-2024'' = bare_request"
  by (simp add: expected_request_def final_segment_def bare_request_def)

lemma example_run:
  "lambda_handler_rds boto3 example_environ [(''resources'', resources)] () =
     (case boto3 ''rds'' ''eu-west-1'' of
        Inl e \<Rightarrow> ([], Raised e)
      | Inr client \<Rightarrow> copy_loop client example_environ resources [] [])"
  by (cases "boto3 ''rds'' ''eu-west-1''")
     (simp_all add: lambda_handler_rds_def environ_get_def getitem_def example_environ_simps)

lemmas example_step = copy_loop_step [OF example_environ_simps(1,3)]

text \<open>
  Claim C10. For a resource name without a colon, splitting on the colon gives the name
  itself as the only segment, the name derivation succeeds with the whole name, and an
  invocation that reaches the entry (the environment is configured and the requests of
  the entries before it were accepted) makes a copy request for it whose destination
  identifier is \<open>copy-\<close> followed by the entire name.
\<close>

theorem colon_free_name_is_copied_under_whole_name:
  assumes "CHR '':'' \<notin> set s"
  shows "str_split CHR '':'' s = [s]
    \<and> snapshot_name s = Inr s
    \<and> (env ''DESTINATION_REGION'' = Some dr \<longrightarrow>
       env ''SOURCE_REGION'' = Some sr \<longrightarrow>
       env ''DESTINATION_REGION_KMS_KEY_ID'' = Some k \<longrightarrow>
       boto3_client ''rds'' dr = Inr client \<longrightarrow>
       getitem event ''resources'' = Inr (pre @ s # post) \<longrightarrow>
       (\<forall>i<length pre. \<exists>r. client (map (expected_request sr k) (take i pre))
                                   (expected_request sr k (pre ! i)) = Inr r) \<longrightarrow>
       length pre < length (copy_calls (fst (lambda_handler_rds boto3_client env event ctx)))
       \<and> copy_calls (fst (lambda_handler_rds boto3_client env event ctx)) ! length pre =
           \<lparr>SourceDBSnapshotIdentifier = s,
            TargetDBSnapshotIdentifier = ''copy-'' @ s,
            Tags = [\<lparr>Key = ''source_region'', Value = sr\<rparr>],
            SourceRegion = sr,
            KmsKeyId = k\<rparr>)"
proof (intro conjI impI)
  show "str_split CHR '':'' s = [s]"
    using assms by (rule str_split_no_sep)
  show "snapshot_name s = Inr s"
    using assms by (simp add: snapshot_name_eq final_segment_no_colon)
next
  assume dr: "env ''DESTINATION_REGION'' = Some dr"
    and env: "env ''SOURCE_REGION'' = Some sr" "env ''DESTINATION_REGION_KMS_KEY_ID'' = Some k"
    and client: "boto3_client ''rds'' dr = Inr client"
    and resources: "getitem event ''resources'' = Inr (pre @ s # post)"
    and ok: "\<forall>i<length pre. \<exists>r. client (map (expected_request sr k) (take i pre))
                                   (expected_request sr k (pre ! i)) = Inr r"
  let ?calls = "copy_calls (fst (lambda_handler_rds boto3_client env event ctx))"
  from ok have ok': "\<forall>i<length pre. \<exists>r. client ([] @ map (expected_request sr k) (take i pre))
                                   (expected_request sr k (pre ! i)) = Inr r"
    by simp
  from copy_loop_reaches [OF env ok', of s post "[]"]
  obtain more where "copy_calls (fst (copy_loop client env (pre @ s # post) [] [])) =
      map (expected_request sr k) pre @ expected_request sr k s # more"
    by auto
  then have calls: "?calls = map (expected_request sr k) pre @ expected_request sr k s # more"
    using dr client resources by (simp add: lambda_handler_rds_def environ_get_def)
  show "length pre < length ?calls"
    by (simp add: calls)
  have "?calls ! length pre = expected_request sr k s"
    by (simp add: calls nth_append)
  then show "?calls ! length pre =
           \<lparr>SourceDBSnapshotIdentifier = s,
            TargetDBSnapshotIdentifier = ''copy-'' @ s,
            Tags = [\<lparr>Key = ''source_region'', Value = sr\<rparr>],
            SourceRegion = sr,
            KmsKeyId = k\<rparr>"
    using assms by (simp add: expected_request_def final_segment_no_colon)
qed

theorem colon_free_name_is_copied_under_whole_name_witness:
  "CHR '':'' \<notin> set ''nightly-2024''
   \<and> example_environ ''DESTINATION_REGION'' = Some ''eu-west-1''
   \<and> example_environ ''SOURCE_REGION'' = Some ''us-east-1''
   \<and> example_environ ''DESTINATION_REGION_KMS_KEY_ID'' = Some ''alias/replica''
   \<and> boto3_accepting ''rds'' ''eu-west-1'' = Inr accepting_rds
   \<and> getitem [(''resources'', [nightly_arn, ''nightly-2024''])] ''resources'' =
       Inr ([nightly_arn] @ ''nightly-2024'' # [])
   \<and> accepting_rds [] (expected_request ''us-east-1'' ''alias/replica'' nightly_arn) =
       Inr ''copy-nightly-2024''
   \<and> str_split CHR '':'' ''nightly-2024'' = [''nightly-2024'']
   \<and> snapshot_name ''nightly-2024'' = Inr ''nightly-2024''
   \<and> copy_calls (fst (lambda_handler_rds boto3_accepting example_environ
         [(''resources'', [nightly_arn, ''nightly-2024''])] ())) ! length [nightly_arn] =
       bare_request"
proof -
  have h0: "CHR '':'' \<notin> set ''nightly-2024''"
    by simp
  have h4: "boto3_accepting ''rds'' ''eu-west-1'' = Inr accepting_rds"
    by (simp add: boto3_accepting_def)
  have h5: "getitem [(''resources'', [nightly_arn, ''nightly-2024''])] ''resources'' =
       Inr ([nightly_arn] @ ''nightly-2024'' # [])"
    by (simp add: getitem_def)
  have h6: "\<forall>i<length [nightly_arn]. \<exists>r.
         accepting_rds (map (expected_request ''us-east-1'' ''alias/replica'') (take i [nightly_arn]))
           (expected_request ''us-east-1'' ''alias/replica'' ([nightly_arn] ! i)) = Inr r"
    by (simp add: accepting_rds_def)
  have h7: "accepting_rds [] (expected_request ''us-east-1'' ''alias/replica'' nightly_arn) =
       Inr ''copy-nightly-2024''"
    by (simp add: accepting_rds_def nightly_expected nightly_request_def)
  note inst = colon_free_name_is_copied_under_whole_name [OF h0,
      where env = example_environ and boto3_client = boto3_accepting and pre = "[nightly_arn]"
        and post = "[]" and event = "[(''resources'', [nightly_arn, ''nightly-2024''])]"
        and ctx = "()" and dr = "''eu-west-1''" and sr = "''us-east-1''"
        and k = "''alias/replica''" and client = accepting_rds]
  from inst example_environ_simps h4 h5 h6
  have "str_split CHR '':'' ''nightly-2024'' = [''nightly-2024'']"
    and "snapshot_name ''nightly-2024'' = Inr ''nightly-2024''"
    and "copy_calls (fst (lambda_handler_rds boto3_accepting example_environ
         [(''resources'', [nightly_arn, ''nightly-2024''])] ())) ! length [nightly_arn] =
       \<lparr>SourceDBSnapshotIdentifier = ''nightly-2024'',
            TargetDBSnapshotIdentifier = ''copy-'' @ ''nightly-2024'',
            Tags = [\<lparr>Key = ''source_region'', Value = ''us-east-1''\<rparr>],
            SourceRegion = ''us-east-1'',
            KmsKeyId = ''alias/replica''\<rparr>"
    by blast+
  with h0 example_environ_simps h4 h5 h7 show ?thesis
    by (simp add: bare_request_def)
qed






text \<open>
  Claim C2, as stated, fails: with two entries and a provider that refuses the first
  request, one copy request is made, not two.
\<close>

theorem one_copy_request_per_entry_counterexample:
  "getitem two_snapshots_event ''resources'' = Inr [nightly_arn, second_arn]
   \<and> copy_calls (fst (lambda_handler_rds boto3_refusing example_environ two_snapshots_event ())) =
       [nightly_request]
   \<and> length (copy_calls
        (fst (lambda_handler_rds boto3_refusing example_environ two_snapshots_event ()))) \<noteq>
       length [nightly_arn, second_arn]"
  by (simp add: two_snapshots_event_def getitem_def example_run boto3_refusing_def example_step
        nightly_expected refusing_rds_def del: copy_loop.simps(2))

text \<open>
  Claim C2, amended. With the environment configured and the client constructed, the
  copy requests made for an event with N entries are those of the first n entries, in list
  order, for some n up to N; they are those of all N entries when none of the requests
  before the last is refused; and every request made carries the configured source
  region as its \<open>SourceRegion\<close> and as the value of its one tag, \<open>source_region\<close>.
\<close>

theorem one_copy_request_per_entry_unless_refused:
  assumes dr: "env ''DESTINATION_REGION'' = Some dr"
    and env: "env ''SOURCE_REGION'' = Some sr" "env ''DESTINATION_REGION_KMS_KEY_ID'' = Some k"
    and client: "boto3_client ''rds'' dr = Inr client"
    and resources: "getitem event ''resources'' = Inr resources"
  shows "(\<exists>n\<le>length resources.
            copy_calls (fst (lambda_handler_rds boto3_client env event ctx)) =
              map (expected_request sr k) (take n resources))
    \<and> ((\<forall>i. Suc i < length resources \<longrightarrow>
            (\<exists>r. client (map (expected_request sr k) (take i resources))
                         (expected_request sr k (resources ! i)) = Inr r)) \<longrightarrow>
         copy_calls (fst (lambda_handler_rds boto3_client env event ctx)) =
           map (expected_request sr k) resources)
    \<and> (\<forall>c\<in>set (copy_calls (fst (lambda_handler_rds boto3_client env event ctx))).
          SourceRegion c = sr \<and> Tags c = [\<lparr>Key = ''source_region'', Value = sr\<rparr>])"
proof -
  let ?calls = "copy_calls (fst (lambda_handler_rds boto3_client env event ctx))"
  have run: "lambda_handler_rds boto3_client env event ctx = copy_loop client env resources [] []"
    using dr client resources by (simp add: lambda_handler_rds_def environ_get_def)
  from copy_loop_calls_prefix [OF env, of resources client "[]" "[]"]
  obtain n where n: "n \<le> length resources"
    and calls: "?calls = map (expected_request sr k) (take n resources)"
    by (auto simp: run)
  have first: "\<exists>n\<le>length resources. ?calls = map (expected_request sr k) (take n resources)"
    using n calls by blast
  have second: "?calls = map (expected_request sr k) resources"
    if ok: "\<forall>i. Suc i < length resources \<longrightarrow>
            (\<exists>r. client (map (expected_request sr k) (take i resources))
                         (expected_request sr k (resources ! i)) = Inr r)"
  proof (cases resources rule: rev_cases)
    case Nil
    with calls show ?thesis by simp
  next
    case (snoc pre x)
    from ok snoc
    have "\<forall>i<length pre. \<exists>r. client ([] @ map (expected_request sr k) (take i pre))
                                       (expected_request sr k (pre ! i)) = Inr r"
      by (auto simp: nth_append)
    from copy_loop_reaches [OF env this, of x "[]" "[]"]
    obtain more where more: "?calls =
        map (expected_request sr k) pre @ expected_request sr k x # more"
      by (auto simp: run snoc)
    from calls have "length ?calls \<le> length resources"
      by simp
    with more snoc have "more = []"
      by simp
    with more snoc show ?thesis by simp
  qed
  have third: "\<forall>c\<in>set ?calls.
      SourceRegion c = sr \<and> Tags c = [\<lparr>Key = ''source_region'', Value = sr\<rparr>]"
    by (auto simp: calls expected_request_def)
  from first second third show ?thesis by blast
qed

theorem one_copy_request_per_entry_unless_refused_witness:
  "example_environ ''DESTINATION_REGION'' = Some ''eu-west-1''
   \<and> example_environ ''SOURCE_REGION'' = Some ''us-east-1''
   \<and> example_environ ''DESTINATION_REGION_KMS_KEY_ID'' = Some ''alias/replica''
   \<and> boto3_accept_one ''rds'' ''eu-west-1'' = Inr accept_one_rds
   \<and> getitem two_snapshots_event ''resources'' = Inr [nightly_arn, second_arn]
   \<and> accept_one_rds [] (expected_request ''us-east-1'' ''alias/replica'' nightly_arn) =
       Inr ''copy-nightly-2024''
   \<and> copy_calls (fst (lambda_handler_rds boto3_accept_one example_environ two_snapshots_event ())) =
       [nightly_request, second_request]
   \<and> nightly_request \<in>
       set (copy_calls (fst (lambda_handler_rds boto3_accept_one example_environ two_snapshots_event ())))
   \<and> SourceRegion nightly_request = ''us-east-1''
   \<and> Tags nightly_request = [\<lparr>Key = ''source_region'', Value = ''us-east-1''\<rparr>]"
proof -
  have h4: "boto3_accept_one ''rds'' ''eu-west-1'' = Inr accept_one_rds"
    by (simp add: boto3_accept_one_def)
  have h5: "getitem two_snapshots_event ''resources'' = Inr [nightly_arn, second_arn]"
    by (simp add: getitem_def two_snapshots_event_def)
  have h6: "accept_one_rds [] (expected_request ''us-east-1'' ''alias/replica'' nightly_arn) =
       Inr ''copy-nightly-2024''"
    by (simp add: accept_one_rds_def nightly_expected nightly_request_def)
  then have h6': "\<forall>i. Suc i < length [nightly_arn, second_arn] \<longrightarrow>
      (\<exists>r. accept_one_rds
              (map (expected_request ''us-east-1'' ''alias/replica'') (take i [nightly_arn, second_arn]))
              (expected_request ''us-east-1'' ''alias/replica'' ([nightly_arn, second_arn] ! i)) = Inr r)"
    by simp
  note inst = one_copy_request_per_entry_unless_refused
    [where env = example_environ and boto3_client = boto3_accept_one and client = accept_one_rds
       and dr = "''eu-west-1''" and sr = "''us-east-1''" and k = "''alias/replica''"
       and event = two_snapshots_event and resources = "[nightly_arn, second_arn]" and ctx = "()",
     OF example_environ_simps(2) example_environ_simps(1) example_environ_simps(3) h4 h5]
  from inst h6'
  have calls: "copy_calls (fst (lambda_handler_rds boto3_accept_one example_environ
        two_snapshots_event ())) = [nightly_request, second_request]"
    by (simp add: nightly_expected second_expected)
  then have mem: "nightly_request \<in> set (copy_calls (fst (lambda_handler_rds boto3_accept_one
        example_environ two_snapshots_event ())))"
    by simp
  with inst have "SourceRegion nightly_request = ''us-east-1''
      \<and> Tags nightly_request = [\<lparr>Key = ''source_region'', Value = ''us-east-1''\<rparr>]"
    by blast
  with example_environ_simps h4 h5 h6 calls mem show ?thesis
    by simp
qed

text \<open>
  Claim C8. Take two invocations with the same environment and any two events, clients
  and contexts. Every copy request of the one and every copy request of the other have
  the same \<open>SourceRegion\<close>, the same \<open>KmsKeyId\<close> and the same tag value, and these are
  the values of the environment variables.
\<close>

theorem region_and_key_come_from_environment_only:
  "\<forall>c1\<in>set (copy_calls (fst (lambda_handler_rds boto3_a env event_a ctx_a))).
   \<forall>c2\<in>set (copy_calls (fst (lambda_handler_rds boto3_b env event_b ctx_b))).
     SourceRegion c1 = SourceRegion c2
     \<and> KmsKeyId c1 = KmsKeyId c2
     \<and> map Value (Tags c1) = map Value (Tags c2)
     \<and> env ''SOURCE_REGION'' = Some (SourceRegion c1)
     \<and> env ''DESTINATION_REGION_KMS_KEY_ID'' = Some (KmsKeyId c1)
     \<and> Tags c1 = [\<lparr>Key = ''source_region'', Value = SourceRegion c1\<rparr>]"
proof (intro ballI)
  fix c1 c2
  assume "c1 \<in> set (copy_calls (fst (lambda_handler_rds boto3_a env event_a ctx_a)))"
    and "c2 \<in> set (copy_calls (fst (lambda_handler_rds boto3_b env event_b ctx_b)))"
  then obtain a1 a2 where a1: "copy_db_snapshot_args env a1 = Inr c1"
    and a2: "copy_db_snapshot_args env a2 = Inr c2"
    using lambda_handler_rds_calls_are_args by meson
  have tags: "Tags c = [\<lparr>Key = ''source_region'', Value = SourceRegion c\<rparr>]"
    if "copy_db_snapshot_args env a = Inr c" for a c
    using copy_db_snapshot_args_Inr(3) [OF that]
    by (metis copy_request.select_convs(3) expected_request_def)
  from copy_db_snapshot_args_Inr(1,2) [OF a1] copy_db_snapshot_args_Inr(1,2) [OF a2]
    tags [OF a1] tags [OF a2]
  show "SourceRegion c1 = SourceRegion c2
     \<and> KmsKeyId c1 = KmsKeyId c2
     \<and> map Value (Tags c1) = map Value (Tags c2)
     \<and> env ''SOURCE_REGION'' = Some (SourceRegion c1)
     \<and> env ''DESTINATION_REGION_KMS_KEY_ID'' = Some (KmsKeyId c1)
     \<and> Tags c1 = [\<lparr>Key = ''source_region'', Value = SourceRegion c1\<rparr>]"
    by simp
qed

lemma two_snapshots_accept_one_calls:
  "copy_calls (fst (lambda_handler_rds boto3_accept_one example_environ two_snapshots_event ())) =
     [nightly_request, second_request]"
  by (simp add: two_snapshots_event_def example_run boto3_accept_one_def example_step
        nightly_expected second_expected accept_one_rds_def del: copy_loop.simps(2))

theorem region_and_key_come_from_environment_only_witness:
  "nightly_request \<in> set (copy_calls (fst (lambda_handler_rds boto3_accepting example_environ
       [(''resources'', [nightly_arn])] ())))
   \<and> second_request \<in> set (copy_calls (fst (lambda_handler_rds boto3_accept_one example_environ
       two_snapshots_event ())))
   \<and> SourceRegion nightly_request = SourceRegion second_request
   \<and> KmsKeyId nightly_request = KmsKeyId second_request
   \<and> map Value (Tags nightly_request) = map Value (Tags second_request)
   \<and> example_environ ''SOURCE_REGION'' = Some (SourceRegion nightly_request)
   \<and> example_environ ''DESTINATION_REGION_KMS_KEY_ID'' = Some (KmsKeyId nightly_request)"
proof -
  have h1: "nightly_request \<in> set (copy_calls (fst (lambda_handler_rds boto3_accepting
      example_environ [(''resources'', [nightly_arn])] ())))"
    by (simp add: nightly_run)
  have h2: "second_request \<in> set (copy_calls (fst (lambda_handler_rds boto3_accept_one
      example_environ two_snapshots_event ())))"
    by (simp add: two_snapshots_accept_one_calls)
  from region_and_key_come_from_environment_only
    [where boto3_a = boto3_accepting and env = example_environ
       and event_a = "[(''resources'', [nightly_arn])]" and ctx_a = "()"
       and boto3_b = boto3_accept_one and event_b = two_snapshots_event and ctx_b = "()"]
    h1 h2
  have "SourceRegion nightly_request = SourceRegion second_request
     \<and> KmsKeyId nightly_request = KmsKeyId second_request
     \<and> map Value (Tags nightly_request) = map Value (Tags second_request)
     \<and> example_environ ''SOURCE_REGION'' = Some (SourceRegion nightly_request)
     \<and> example_environ ''DESTINATION_REGION_KMS_KEY_ID'' = Some (KmsKeyId nightly_request)"
    by blast
  with h1 h2 show ?thesis by blast
qed


section \<open>Properties of the scheduler\<close>


lemma append_instance_ids_eq:
  "append_instance_ids instances instance_ids = instance_ids @ map InstanceId instances"
  by (induction instances arbitrary: instance_ids) simp_all

lemma collect_instance_ids_eq:
  "collect_instance_ids reservations instance_ids =
     instance_ids @ concat (map (\<lambda>r. map InstanceId (Instances r)) reservations)"
  by (induction reservations arbitrary: instance_ids) (simp_all add: append_instance_ids_eq)

lemma collect_instance_ids_returned:
  "collect_instance_ids (Reservations response) [] = returned_ids response"
  by (simp add: collect_instance_ids_eq returned_ids_def)

lemma power_calls_start_instances:
  "power_calls (fst (start_instances client ids t)) =
     power_calls t @
       (case client_start_instances client ids of
          Inl e \<Rightarrow> [Start_instances ids]
        | Inr r \<Rightarrow> [Start_instances ids, Waiter_wait ''instance_running'' ids])"
  by (simp add: start_instances_def power_calls_def Let_def split: sum.splits)

lemma power_calls_stop_instances:
  "power_calls (fst (stop_instances client ids t)) =
     power_calls t @
       (case client_stop_instances client ids of
          Inl e \<Rightarrow> [Stop_instances ids]
        | Inr r \<Rightarrow> [Stop_instances ids, Waiter_wait ''instance_stopped'' ids])"
  by (simp add: stop_instances_def power_calls_def Let_def split: sum.splits)

lemma describe_calls_append: "describe_calls (t @ u) = describe_calls t @ describe_calls u"
  by (induction t rule: describe_calls.induct) simp_all

lemma describe_calls_start_instances:
  "describe_calls (fst (start_instances client ids t)) = describe_calls t"
  by (simp add: start_instances_def Let_def describe_calls_append split: sum.splits)

lemma describe_calls_stop_instances:
  "describe_calls (fst (stop_instances client ids t)) = describe_calls t"
  by (simp add: stop_instances_def Let_def describe_calls_append split: sum.splits)

lemma start_instances_refused:
  "client_start_instances client ids = Inl e \<Longrightarrow> snd (start_instances client ids t) = Raised e"
  by (simp add: start_instances_def Let_def)

lemma stop_instances_refused:
  "client_stop_instances client ids = Inl e \<Longrightarrow> snd (stop_instances client ids t) = Raised e"
  by (simp add: stop_instances_def Let_def)

lemma lambda_handler_ec2_found:
  assumes "client_describe_instances client custom_filter = Inr response"
    and "returned_ids response \<noteq> []"
  shows "lambda_handler_ec2 client event ctx =
     (case getitem event ''Action'' of
        Inl e \<Rightarrow> (found_trace event ctx (returned_ids response), Raised e)
      | Inr action \<Rightarrow>
          if action = ''Start'' then
            start_instances client (returned_ids response)
              (found_trace event ctx (returned_ids response))
          else if action = ''Stop'' then
            stop_instances client (returned_ids response)
              (found_trace event ctx (returned_ids response))
          else (found_trace event ctx (returned_ids response)
                  @ [Print (''Unknown action '' @ action @ '' provided by event.'')], Returned))"
  using assms
  by (cases "getitem event ''Action''")
     (simp_all add: lambda_handler_ec2_def collect_instance_ids_returned found_trace_def Let_def)

lemma lambda_handler_ec2_none_found:
  assumes "client_describe_instances client custom_filter = Inr response"
    and "returned_ids response = []"
  shows "lambda_handler_ec2 client event ctx =
     ([Print_event event, Print_context ctx, Describe_instances custom_filter,
       Print (''Found no instance ids with tag '' @ TAG_KEY @ ''='' @ TAG_VALUE)],
      SystemExit None)"
  using assms by (simp add: lambda_handler_ec2_def collect_instance_ids_returned Let_def)

lemma lambda_handler_ec2_lookup_failed:
  assumes "client_describe_instances client custom_filter = Inl e"
  shows "lambda_handler_ec2 client event ctx =
     ([Print_event event, Print_context ctx, Describe_instances custom_filter], Raised e)"
  using assms by (simp add: lambda_handler_ec2_def Let_def)

lemma power_calls_found_trace: "power_calls (found_trace event ctx ids) = []"
  by (simp add: found_trace_def power_calls_def)

lemma api_calls_found_trace:
  "api_calls (found_trace event ctx ids) = [Describe_instances custom_filter]"
  by (simp add: found_trace_def api_calls_def)

lemma describe_calls_found_trace: "describe_calls (found_trace event ctx ids) = [custom_filter]"
  by (simp add: found_trace_def)

lemma custom_filter_value:
  "custom_filter = [\<lparr>Name = ''tag:Scheduled'', Values = [''OfficeHours'']\<rparr>]"
  by (simp add: custom_filter_def TAG_KEY_def TAG_VALUE_def)

text \<open>
  Claim C1, amended. The lookup is made with the filter \<open>tag:Scheduled\<close> =
  \<open>OfficeHours\<close>. When the action is \<open>Start\<close> and the lookup returns a non-empty list
  of identifiers, the start, stop and wait calls of the handler are: one start request
  with exactly the identifiers returned, followed, when the start request succeeds, by
  one wait-for-running call with the same identifiers, and nothing else; when the start
  request fails its error leaves the handler uncaught and no wait call is made.
\<close>

theorem start_request_then_wait_unless_refused:
  assumes action: "getitem event ''Action'' = Inr ''Start''"
    and lookup: "client_describe_instances client custom_filter = Inr response"
    and found: "returned_ids response \<noteq> []"
  shows "custom_filter = [\<lparr>Name = ''tag:Scheduled'', Values = [''OfficeHours'']\<rparr>]
    \<and> (client_start_instances client (returned_ids response) = Inr () \<longrightarrow>
         power_calls (fst (lambda_handler_ec2 client event ctx)) =
           [Start_instances (returned_ids response),
            Waiter_wait ''instance_running'' (returned_ids response)])
    \<and> (\<forall>e. client_start_instances client (returned_ids response) = Inl e \<longrightarrow>
         power_calls (fst (lambda_handler_ec2 client event ctx)) =
           [Start_instances (returned_ids response)]
         \<and> snd (lambda_handler_ec2 client event ctx) = Raised e)"
  using action
  by (simp add: custom_filter_value lambda_handler_ec2_found [OF lookup found]
        power_calls_start_instances power_calls_found_trace start_instances_refused)

lemma example_lookups:
  "client_describe_instances working_ec2 custom_filter = Inr two_instances"
  "client_describe_instances start_denied_ec2 custom_filter = Inr two_instances"
  "client_describe_instances stop_denied_ec2 custom_filter = Inr two_instances"
  "client_describe_instances idle_ec2 custom_filter = Inr no_instances"
  "client_describe_instances unreachable_ec2 custom_filter = Inl (ClientError ''RequestLimitExceeded'')"
  by (simp_all add: working_ec2_def start_denied_ec2_def stop_denied_ec2_def idle_ec2_def
        unreachable_ec2_def)

lemma example_ids:
  "returned_ids two_instances = [''i-111'', ''i-222'']"
  "returned_ids no_instances = []"
  by (simp_all add: returned_ids_def two_instances_def no_instances_def)

lemma example_actions:
  "getitem start_event ''Action'' = Inr ''Start''"
  "getitem stop_event ''Action'' = Inr ''Stop''"
  "getitem restart_event ''Action'' = Inr ''Restart''"
  "getitem no_action_event ''Action'' = Inl (KeyError ''Action'')"
  by (simp_all add: getitem_def start_event_def stop_event_def restart_event_def
        no_action_event_def)

lemma two_instances_found: "returned_ids two_instances \<noteq> []"
  by (simp add: example_ids)

text \<open>
  Claim C1, as stated, fails: with the action \<open>Start\<close> and two instances found, a
  provider that refuses the start request receives the start request and no wait call.
\<close>

theorem start_request_then_wait_counterexample:
  "getitem start_event ''Action'' = Inr ''Start''
   \<and> client_describe_instances start_denied_ec2 custom_filter = Inr two_instances
   \<and> returned_ids two_instances = [''i-111'', ''i-222'']
   \<and> power_calls (fst (lambda_handler_ec2 start_denied_ec2 start_event ())) =
       [Start_instances [''i-111'', ''i-222'']]
   \<and> power_calls (fst (lambda_handler_ec2 start_denied_ec2 start_event ())) \<noteq>
       [Start_instances [''i-111'', ''i-222''],
        Waiter_wait ''instance_running'' [''i-111'', ''i-222'']]
   \<and> snd (lambda_handler_ec2 start_denied_ec2 start_event ()) =
       Raised (ClientError ''UnauthorizedOperation'')"
proof -
  have denied: "client_start_instances start_denied_ec2 [''i-111'', ''i-222''] =
      Inl (ClientError ''UnauthorizedOperation'')"
    by (simp add: start_denied_ec2_def)
  show ?thesis
    by (simp add: example_actions example_lookups example_ids
          lambda_handler_ec2_found [OF example_lookups(2) two_instances_found]
          power_calls_start_instances power_calls_found_trace denied
          start_instances_refused [OF denied])
qed

theorem start_request_then_wait_unless_refused_witness:
  "getitem start_event ''Action'' = Inr ''Start''
   \<and> client_describe_instances working_ec2 custom_filter = Inr two_instances
   \<and> returned_ids two_instances = [''i-111'', ''i-222'']
   \<and> client_start_instances working_ec2 [''i-111'', ''i-222''] = Inr ()
   \<and> power_calls (fst (lambda_handler_ec2 working_ec2 start_event ())) =
       [Start_instances [''i-111'', ''i-222''],
        Waiter_wait ''instance_running'' [''i-111'', ''i-222'']]"
proof -
  have started: "client_start_instances working_ec2 (returned_ids two_instances) = Inr ()"
    by (simp add: working_ec2_def)
  from start_request_then_wait_unless_refused
    [where client = working_ec2 and event = start_event and response = two_instances
       and ctx = "()", OF example_actions(1) example_lookups(1) two_instances_found]
    started
  have "power_calls (fst (lambda_handler_ec2 working_ec2 start_event ())) =
       [Start_instances (returned_ids two_instances),
        Waiter_wait ''instance_running'' (returned_ids two_instances)]"
    by blast
  with started example_actions(1) example_lookups(1) show ?thesis
    by (simp add: example_ids)
qed

text \<open>
  Claim C5, as stated, fails: with the action \<open>Stop\<close> and two instances found, a
  provider that refuses the stop request receives the stop request and no wait call.
\<close>

theorem stop_request_then_wait_counterexample:
  "getitem stop_event ''Action'' = Inr ''Stop''
   \<and> client_describe_instances stop_denied_ec2 custom_filter = Inr two_instances
   \<and> returned_ids two_instances = [''i-111'', ''i-222'']
   \<and> power_calls (fst (lambda_handler_ec2 stop_denied_ec2 stop_event ())) =
       [Stop_instances [''i-111'', ''i-222'']]
   \<and> power_calls (fst (lambda_handler_ec2 stop_denied_ec2 stop_event ())) \<noteq>
       [Stop_instances [''i-111'', ''i-222''],
        Waiter_wait ''instance_stopped'' [''i-111'', ''i-222'']]
   \<and> snd (lambda_handler_ec2 stop_denied_ec2 stop_event ()) =
       Raised (ClientError ''UnauthorizedOperation'')"
proof -
  have denied: "client_stop_instances stop_denied_ec2 [''i-111'', ''i-222''] =
      Inl (ClientError ''UnauthorizedOperation'')"
    by (simp add: stop_denied_ec2_def)
  show ?thesis
    by (simp add: example_actions example_lookups example_ids
          lambda_handler_ec2_found [OF example_lookups(3) two_instances_found]
          power_calls_stop_instances power_calls_found_trace denied
          stop_instances_refused [OF denied])
qed

text \<open>
  Claim C5, amended. When the action is \<open>Stop\<close> and the lookup returns a non-empty list
  of identifiers, the start, stop and wait calls of the handler are: one stop request
  with exactly the identifiers returned, followed, when the stop request succeeds, by
  one wait-for-stopped call with the same identifiers, and nothing else; when the stop
  request fails its error leaves the handler uncaught and no wait call is made.
\<close>

theorem stop_request_then_wait_unless_refused:
  assumes action: "getitem event ''Action'' = Inr ''Stop''"
    and lookup: "client_describe_instances client custom_filter = Inr response"
    and found: "returned_ids response \<noteq> []"
  shows "custom_filter = [\<lparr>Name = ''tag:Scheduled'', Values = [''OfficeHours'']\<rparr>]
    \<and> (client_stop_instances client (returned_ids response) = Inr () \<longrightarrow>
         power_calls (fst (lambda_handler_ec2 client event ctx)) =
           [Stop_instances (returned_ids response),
            Waiter_wait ''instance_stopped'' (returned_ids response)])
    \<and> (\<forall>e. client_stop_instances client (returned_ids response) = Inl e \<longrightarrow>
         power_calls (fst (lambda_handler_ec2 client event ctx)) =
           [Stop_instances (returned_ids response)]
         \<and> snd (lambda_handler_ec2 client event ctx) = Raised e)"
  using action
  by (simp add: custom_filter_value lambda_handler_ec2_found [OF lookup found]
        power_calls_stop_instances power_calls_found_trace stop_instances_refused)

theorem stop_request_then_wait_unless_refused_witness:
  "getitem stop_event ''Action'' = Inr ''Stop''
   \<and> client_describe_instances working_ec2 custom_filter = Inr two_instances
   \<and> returned_ids two_instances = [''i-111'', ''i-222'']
   \<and> client_stop_instances working_ec2 [''i-111'', ''i-222''] = Inr ()
   \<and> power_calls (fst (lambda_handler_ec2 working_ec2 stop_event ())) =
       [Stop_instances [''i-111'', ''i-222''],
        Waiter_wait ''instance_stopped'' [''i-111'', ''i-222'']]"
proof -
  have stopped: "client_stop_instances working_ec2 (returned_ids two_instances) = Inr ()"
    by (simp add: working_ec2_def)
  from stop_request_then_wait_unless_refused
    [where client = working_ec2 and event = stop_event and response = two_instances
       and ctx = "()", OF example_actions(2) example_lookups(1) two_instances_found]
    stopped
  have "power_calls (fst (lambda_handler_ec2 working_ec2 stop_event ())) =
       [Stop_instances (returned_ids two_instances),
        Waiter_wait ''instance_stopped'' (returned_ids two_instances)]"
    by blast
  with stopped example_actions(2) example_lookups(1) show ?thesis
    by (simp add: example_ids)
qed

text \<open>
  Claim C3. Whatever the event, when the lookup returns no identifier the handler makes
  no start, stop or wait call (the lookup is its only provider call) and ends with
  \<open>SystemExit\<close> carrying no exit code, which is exit status 0: no exception that signals
  an error leaves it.
\<close>

theorem empty_lookup_exits_without_calls:
  assumes lookup: "client_describe_instances client custom_filter = Inr response"
    and none: "returned_ids response = []"
  shows "power_calls (fst (lambda_handler_ec2 client event ctx)) = []
    \<and> api_calls (fst (lambda_handler_ec2 client event ctx)) = [Describe_instances custom_filter]
    \<and> snd (lambda_handler_ec2 client event ctx) = SystemExit None"
  by (simp add: lambda_handler_ec2_none_found [OF lookup none] power_calls_def api_calls_def)

theorem empty_lookup_exits_without_calls_witness:
  "client_describe_instances idle_ec2 custom_filter = Inr no_instances
   \<and> returned_ids no_instances = []
   \<and> power_calls (fst (lambda_handler_ec2 idle_ec2 stop_event ())) = []
   \<and> api_calls (fst (lambda_handler_ec2 idle_ec2 stop_event ())) =
       [Describe_instances custom_filter]
   \<and> snd (lambda_handler_ec2 idle_ec2 stop_event ()) = SystemExit None"
  using empty_lookup_exits_without_calls
    [where client = idle_ec2 and response = no_instances and event = stop_event and ctx = "()",
     OF example_lookups(4) example_ids(2)]
    example_lookups(4) example_ids(2)
  by simp

text \<open>
  Claim C6, as stated, fails: with the action \<open>Restart\<close> and a lookup that returns no
  identifier, the handler exits before it looks at the action; it prints no message
  about the action and does not return.
\<close>

theorem unknown_action_logged_counterexample:
  "getitem restart_event ''Action'' = Inr ''Restart''
   \<and> snd (lambda_handler_ec2 idle_ec2 restart_event ()) = SystemExit None
   \<and> snd (lambda_handler_ec2 idle_ec2 restart_event ()) \<noteq> Returned
   \<and> Print ''Unknown action Restart provided by event.''
       \<notin> set (fst (lambda_handler_ec2 idle_ec2 restart_event ()))"
  by (simp add: example_actions
        lambda_handler_ec2_none_found [OF example_lookups(4) example_ids(2)]
        TAG_KEY_def TAG_VALUE_def)

text \<open>
  Claim C6, amended. When the action is present and is neither \<open>Start\<close> nor \<open>Stop\<close>,
  the handler makes no start, stop or wait call; and when the lookup returns a non-empty
  list of identifiers, the last thing it does is print the message naming the
  unrecognized value, and it returns normally.
\<close>

theorem unknown_action_changes_nothing:
  assumes action: "getitem event ''Action'' = Inr action"
    and unknown: "action \<noteq> ''Start''" "action \<noteq> ''Stop''"
  shows "power_calls (fst (lambda_handler_ec2 client event ctx)) = []
    \<and> (\<forall>response. client_describe_instances client custom_filter = Inr response \<longrightarrow>
          returned_ids response \<noteq> [] \<longrightarrow>
          fst (lambda_handler_ec2 client event ctx) =
            found_trace event ctx (returned_ids response)
              @ [Print (''Unknown action '' @ action @ '' provided by event.'')]
          \<and> snd (lambda_handler_ec2 client event ctx) = Returned)"
proof (intro conjI allI impI)
  show "power_calls (fst (lambda_handler_ec2 client event ctx)) = []"
  proof (cases "client_describe_instances client custom_filter")
    case (Inl e)
    then show ?thesis
      by (simp add: lambda_handler_ec2_lookup_failed power_calls_def)
  next
    case (Inr response)
    show ?thesis
    proof (cases "returned_ids response = []")
      case True
      with Inr show ?thesis
        by (simp add: lambda_handler_ec2_none_found power_calls_def)
    next
      case False
      with Inr action unknown show ?thesis
        by (simp add: lambda_handler_ec2_found found_trace_def power_calls_def)
    qed
  qed
next
  fix response
  assume "client_describe_instances client custom_filter = Inr response"
    and "returned_ids response \<noteq> []"
  with action unknown
  show "fst (lambda_handler_ec2 client event ctx) =
            found_trace event ctx (returned_ids response)
              @ [Print (''Unknown action '' @ action @ '' provided by event.'')]"
    and "snd (lambda_handler_ec2 client event ctx) = Returned"
    by (simp_all add: lambda_handler_ec2_found)
qed

theorem unknown_action_changes_nothing_witness:
  "getitem restart_event ''Action'' = Inr ''Restart''
   \<and> ''Restart'' \<noteq> ''Start''
   \<and> ''Restart'' \<noteq> ''Stop''
   \<and> client_describe_instances working_ec2 custom_filter = Inr two_instances
   \<and> returned_ids two_instances \<noteq> []
   \<and> power_calls (fst (lambda_handler_ec2 working_ec2 restart_event ())) = []
   \<and> fst (lambda_handler_ec2 working_ec2 restart_event ()) =
       [Print_event restart_event, Print_context (), Describe_instances custom_filter,
        Print ''Found instance ids i-111,i-222 with tag Scheduled=OfficeHours'',
        Print ''Unknown action Restart provided by event.'']
   \<and> snd (lambda_handler_ec2 working_ec2 restart_event ()) = Returned"
proof -
  have h2: "''Restart'' \<noteq> ''Start''" and h3: "''Restart'' \<noteq> ''Stop''"
    by simp_all
  note inst = unknown_action_changes_nothing
    [where event = restart_event and action = "''Restart''" and client = working_ec2
       and ctx = "()", OF example_actions(3) h2 h3]
  from inst example_lookups(1) two_instances_found
  have "fst (lambda_handler_ec2 working_ec2 restart_event ()) =
            found_trace restart_event () (returned_ids two_instances)
              @ [Print (''Unknown action '' @ ''Restart'' @ '' provided by event.'')]"
    and "snd (lambda_handler_ec2 working_ec2 restart_event ()) = Returned"
    by blast+
  with inst example_actions(3) example_lookups(1) two_instances_found show ?thesis
    by (simp add: found_trace_def example_ids TAG_KEY_def TAG_VALUE_def)
qed

lemma api_calls_start_instances:
  "\<exists>rest. api_calls (fst (start_instances client ids t)) = api_calls t @ rest"
  by (simp add: start_instances_def api_calls_def Let_def split: sum.splits)

lemma api_calls_stop_instances:
  "\<exists>rest. api_calls (fst (stop_instances client ids t)) = api_calls t @ rest"
  by (simp add: stop_instances_def api_calls_def Let_def split: sum.splits)

text \<open>
  Claim C9. In every invocation the lookup is made exactly once, with the tag filter, and
  is the first provider call. It comes before the action is read: a lookup that fails
  ends the handler with the lookup's error whatever the event holds, and when the lookup
  returns a non-empty list and the event has no \<open>Action\<close>, the handler ends with
  \<open>KeyError\<close> for \<open>Action\<close> after the lookup, having made no start, stop or wait call.
\<close>

theorem lookup_once_and_before_action:
  "describe_calls (fst (lambda_handler_ec2 client event ctx)) = [custom_filter]
   \<and> (\<exists>rest. api_calls (fst (lambda_handler_ec2 client event ctx)) =
          Describe_instances custom_filter # rest)
   \<and> (\<forall>e. client_describe_instances client custom_filter = Inl e \<longrightarrow>
          snd (lambda_handler_ec2 client event ctx) = Raised e)
   \<and> (\<forall>response. client_describe_instances client custom_filter = Inr response \<longrightarrow>
          returned_ids response \<noteq> [] \<longrightarrow>
          map_of event ''Action'' = None \<longrightarrow>
          snd (lambda_handler_ec2 client event ctx) = Raised (KeyError ''Action'')
          \<and> api_calls (fst (lambda_handler_ec2 client event ctx)) =
              [Describe_instances custom_filter]
          \<and> power_calls (fst (lambda_handler_ec2 client event ctx)) = [])"
proof (intro conjI allI impI)
  show "describe_calls (fst (lambda_handler_ec2 client event ctx)) = [custom_filter]"
  proof (cases "client_describe_instances client custom_filter")
    case (Inl e)
    then show ?thesis by (simp add: lambda_handler_ec2_lookup_failed)
  next
    case (Inr response)
    show ?thesis
    proof (cases "returned_ids response = []")
      case True
      with Inr show ?thesis by (simp add: lambda_handler_ec2_none_found)
    next
      case False
      with Inr show ?thesis
        by (cases "getitem event ''Action''")
           (simp_all add: lambda_handler_ec2_found describe_calls_start_instances
              describe_calls_stop_instances describe_calls_found_trace describe_calls_append)
    qed
  qed
next
  show "\<exists>rest. api_calls (fst (lambda_handler_ec2 client event ctx)) =
          Describe_instances custom_filter # rest"
  proof (cases "client_describe_instances client custom_filter")
    case (Inl e)
    then show ?thesis by (simp add: lambda_handler_ec2_lookup_failed api_calls_def)
  next
    case (Inr response)
    show ?thesis
    proof (cases "returned_ids response = []")
      case True
      with Inr show ?thesis by (simp add: lambda_handler_ec2_none_found api_calls_def)
    next
      case False
      note found = lambda_handler_ec2_found [OF Inr False, of event ctx]
      show ?thesis
      proof (cases "getitem event ''Action''")
        case (Inl e)
        with found show ?thesis by (simp add: api_calls_found_trace)
      next
        case action: (Inr action)
        from api_calls_start_instances [of client "returned_ids response"
            "found_trace event ctx (returned_ids response)"]
          api_calls_stop_instances [of client "returned_ids response"
            "found_trace event ctx (returned_ids response)"]
        show ?thesis
          using found action
          by (auto simp: api_calls_found_trace) (simp_all add: api_calls_def found_trace_def)
      qed
    qed
  qed
next
  fix e
  assume "client_describe_instances client custom_filter = Inl e"
  then show "snd (lambda_handler_ec2 client event ctx) = Raised e"
    by (simp add: lambda_handler_ec2_lookup_failed)
next
  fix response
  assume lookup: "client_describe_instances client custom_filter = Inr response"
    and found: "returned_ids response \<noteq> []"
    and "map_of event ''Action'' = None"
  then have "getitem event ''Action'' = Inl (KeyError ''Action'')"
    by (simp add: getitem_def)
  then show "snd (lambda_handler_ec2 client event ctx) = Raised (KeyError ''Action'')"
    and "api_calls (fst (lambda_handler_ec2 client event ctx)) = [Describe_instances custom_filter]"
    and "power_calls (fst (lambda_handler_ec2 client event ctx)) = []"
    by (simp_all add: lambda_handler_ec2_found [OF lookup found] api_calls_found_trace
          power_calls_found_trace)
qed

theorem lookup_once_and_before_action_witness:
  "client_describe_instances working_ec2 custom_filter = Inr two_instances
   \<and> returned_ids two_instances \<noteq> []
   \<and> map_of no_action_event ''Action'' = None
   \<and> describe_calls (fst (lambda_handler_ec2 working_ec2 no_action_event ())) = [custom_filter]
   \<and> snd (lambda_handler_ec2 working_ec2 no_action_event ()) = Raised (KeyError ''Action'')
   \<and> api_calls (fst (lambda_handler_ec2 working_ec2 no_action_event ())) =
       [Describe_instances custom_filter]
   \<and> power_calls (fst (lambda_handler_ec2 working_ec2 no_action_event ())) = []"
proof -
  have h3: "map_of no_action_event ''Action'' = None"
    by (simp add: no_action_event_def)
  note inst = lookup_once_and_before_action
    [where client = working_ec2 and event = no_action_event and ctx = "()"]
  from inst example_lookups(1) two_instances_found h3
  have "snd (lambda_handler_ec2 working_ec2 no_action_event ()) = Raised (KeyError ''Action'')
      \<and> api_calls (fst (lambda_handler_ec2 working_ec2 no_action_event ())) =
          [Describe_instances custom_filter]
      \<and> power_calls (fst (lambda_handler_ec2 working_ec2 no_action_event ())) = []"
    by blast
  with inst example_lookups(1) two_instances_found h3 show ?thesis
    by blast
qed

end
